theory Spec2Isabelle
  imports Main
begin

section \<open>Python values\<close>

text \<open>
  The values that reach \<^verbatim>\<open>HDict\<close> in \<^verbatim>\<open>src/hdict/dictionary.py\<close>: \<^verbatim>\<open>None\<close>, booleans,
  integers, strings, tuples, lists, plain dictionaries and \<^verbatim>\<open>HDict\<close> instances. A
  dictionary is the list of its items in insertion order. An \<^verbatim>\<open>HDict\<close> carries its
  private \<^verbatim>\<open>__factory\<close> as well: \<open>None\<close> when the attribute is not callable, otherwise
  the callable, given by the values it returns on its successive invocations (a callable
  may be stateful; invoking it yields the value at index 0 and leaves the rest).
  Floats, bytes and sets are outside the model.
\<close>

datatype pyval =
    PNone
  | PBool bool
  | PInt int
  | PStr string
  | PTuple "pyval list"
  | PList "pyval list"
  | PDict "(pyval \<times> pyval) list"
  | PHDict "(pyval \<times> pyval) list" "(nat \<Rightarrow> pyval) option"

type_synonym items = "(pyval \<times> pyval) list"

type_synonym callable = "nat \<Rightarrow> pyval"

datatype message = EvenNumberOfArguments | ValueNotHashable | KeyNotHashable | CannotUnpack

datatype error = ValueError message | KeyError | TypeError

text \<open>\<^verbatim>\<open>isinstance(v, typing.Sequence)\<close>, \<^verbatim>\<open>isinstance(v, typing.Mapping)\<close> and
  \<^verbatim>\<open>isinstance(v, typing.Hashable)\<close>. The last one only asks whether the class defines
  \<^verbatim>\<open>__hash__\<close>: every tuple passes, whatever it holds.\<close>

fun is_Sequence :: "pyval \<Rightarrow> bool" where
  "is_Sequence (PStr s) = True"
| "is_Sequence (PTuple xs) = True"
| "is_Sequence (PList xs) = True"
| "is_Sequence v = False"

fun is_Mapping :: "pyval \<Rightarrow> bool" where
  "is_Mapping (PDict es) = True"
| "is_Mapping (PHDict es f) = True"
| "is_Mapping v = False"

fun is_Hashable :: "pyval \<Rightarrow> bool" where
  "is_Hashable (PList xs) = False"
| "is_Hashable (PDict es) = False"
| "is_Hashable v = True"

text \<open>Whether \<^verbatim>\<open>hash(v)\<close> returns: a tuple hashes its elements, and \<^verbatim>\<open>HDict.__hash__\<close>
  builds the frozenset of the keys, which hashes each of them.\<close>

fun hashable :: "pyval \<Rightarrow> bool" where
  "hashable (PTuple xs) = list_all hashable xs"
| "hashable (PList xs) = False"
| "hashable (PDict es) = False"
| "hashable (PHDict es f) = list_all (\<lambda>(k, v). hashable k) es"
| "hashable v = True"

text \<open>The elements of a sequence (\<^verbatim>\<open>len(arg)\<close>, \<^verbatim>\<open>arg[0]\<close>, \<^verbatim>\<open>arg[1]\<close>, unpacking): a string
  is the sequence of its one-character strings.\<close>

fun seq_elems :: "pyval \<Rightarrow> pyval list" where
  "seq_elems (PStr s) = map (\<lambda>c. PStr [c]) s"
| "seq_elems (PTuple xs) = xs"
| "seq_elems (PList xs) = xs"
| "seq_elems v = []"

text \<open>\<^verbatim>\<open>m.items()\<close> of a mapping.\<close>

fun mapping_items :: "pyval \<Rightarrow> items" where
  "mapping_items (PDict es) = es"
| "mapping_items (PHDict es f) = es"
| "mapping_items v = []"

subsection \<open>Equality\<close>

text \<open>Python's \<^verbatim>\<open>==\<close>. \<^verbatim>\<open>True == 1\<close>; sequences compare element by element within their
  own type; two dictionaries (\<^verbatim>\<open>HDict\<close> inherits \<^verbatim>\<open>dict.__eq__\<close>) are equal when they have
  the same (key, value) pairs, in any order, and the factory plays no part.\<close>

abbreviation same_items :: "(pyval \<Rightarrow> pyval \<Rightarrow> bool) \<Rightarrow> items \<Rightarrow> items \<Rightarrow> bool" where
  "same_items eq es fs \<equiv>
     list_all (\<lambda>(k, v). list_ex (\<lambda>(k', v'). eq k k' \<and> eq v v') fs) es \<and>
     list_all (\<lambda>(k', v'). list_ex (\<lambda>(k, v). eq k k' \<and> eq v v') es) fs"

fun py_eq :: "pyval \<Rightarrow> pyval \<Rightarrow> bool" where
  "py_eq PNone PNone = True"
| "py_eq (PBool a) (PBool b) = (a = b)"
| "py_eq (PBool a) (PInt j) = ((if a then 1 else 0) = j)"
| "py_eq (PInt i) (PBool b) = (i = (if b then 1 else 0))"
| "py_eq (PInt i) (PInt j) = (i = j)"
| "py_eq (PStr s) (PStr t) = (s = t)"
| "py_eq (PTuple xs) (PTuple ys) = list_all2 py_eq xs ys"
| "py_eq (PList xs) (PList ys) = list_all2 py_eq xs ys"
| "py_eq (PDict es) (PDict fs) = same_items py_eq es fs"
| "py_eq (PDict es) (PHDict fs g) = same_items py_eq es fs"
| "py_eq (PHDict es f) (PDict fs) = same_items py_eq es fs"
| "py_eq (PHDict es f) (PHDict fs g) = same_items py_eq es fs"
| "py_eq a b = False"

subsection \<open>The built-in dictionary\<close>

text \<open>\<^verbatim>\<open>key in d\<close>, \<^verbatim>\<open>d[key]\<close> and \<^verbatim>\<open>d[key] = value\<close> of \<^verbatim>\<open>dict\<close>. A key is found by
  equality. Storing under a key that is already there replaces the value and keeps the
  key object and its position; a new key goes to the end. All three hash the key first
  and raise \<^verbatim>\<open>TypeError\<close> when it cannot be hashed.\<close>

fun dict_get :: "items \<Rightarrow> pyval \<Rightarrow> pyval option" where
  "dict_get [] q = None"
| "dict_get ((k, v) # es) q = (if py_eq k q then Some v else dict_get es q)"

fun dict_key :: "items \<Rightarrow> pyval \<Rightarrow> pyval option" where
  "dict_key [] q = None"
| "dict_key ((k, v) # es) q = (if py_eq k q then Some k else dict_key es q)"

fun dict_put :: "items \<Rightarrow> pyval \<Rightarrow> pyval \<Rightarrow> items" where
  "dict_put [] q w = [(q, w)]"
| "dict_put ((k, v) # es) q w = (if py_eq k q then (k, w) # es else (k, v) # dict_put es q w)"

definition dict_contains :: "items \<Rightarrow> pyval \<Rightarrow> error + bool" where
  "dict_contains es q = (if hashable q then Inr (dict_get es q \<noteq> None) else Inl TypeError)"

definition dict_getitem :: "items \<Rightarrow> pyval \<Rightarrow> error + pyval" where
  "dict_getitem es q =
     (if hashable q then (case dict_get es q of None \<Rightarrow> Inl KeyError | Some v \<Rightarrow> Inr v)
      else Inl TypeError)"

definition dict_setitem :: "items \<Rightarrow> pyval \<Rightarrow> pyval \<Rightarrow> error + items" where
  "dict_setitem es q w = (if hashable q then Inr (dict_put es q w) else Inl TypeError)"

text \<open>A run of stores into a plain dictionary (\<^verbatim>\<open>kwargs[key] = value\<close> in a loop,
  \<^verbatim>\<open>kwargs.update(m)\<close>), stopping at the first error.\<close>

fun dict_setitems :: "items \<Rightarrow> items \<Rightarrow> error + items" where
  "dict_setitems d [] = Inr d"
| "dict_setitems d ((k, v) # kvs) =
     (case dict_setitem d k v of Inl e \<Rightarrow> Inl e | Inr d' \<Rightarrow> dict_setitems d' kvs)"

section \<open>The argument shapes\<close>

text \<open>\<^verbatim>\<open>_parameters_are_key_value_pairs(*args)\<close>: every positional argument is a sequence
  of length 2 whose two elements are instances of \<^verbatim>\<open>Hashable\<close>.\<close>

definition is_key_value_pair :: "pyval \<Rightarrow> bool" where
  "is_key_value_pair arg =
     (if \<not> (is_Sequence arg \<and> length (seq_elems arg) = 2) then False
      else if \<not> is_Hashable (seq_elems arg ! 0) then False
      else if \<not> is_Hashable (seq_elems arg ! 1) then False
      else True)"

definition parameters_are_key_value_pairs :: "pyval list \<Rightarrow> bool" where
  "parameters_are_key_value_pairs args =
     (if length args = 0 then False else list_all is_key_value_pair args)"

text \<open>\<^verbatim>\<open>_parameters_is_key_value_list(*args)\<close>: an even, positive number of arguments, and
  none of those at the indices \<^verbatim>\<open>range(0, len(args), 2)\<close> fails \<^verbatim>\<open>isinstance(_, Hashable)\<close>.\<close>

definition parameters_is_key_value_list :: "pyval list \<Rightarrow> bool" where
  "parameters_is_key_value_list args =
     (if length args = 0 then False
      else if length args mod 2 \<noteq> 0 then False
      else (let unhashable_keys =
                  [args ! index. index \<leftarrow> filter even [0..<length args],
                                 \<not> is_Hashable (args ! index)]
            in length unhashable_keys = 0))"

section \<open>HDict\<close>

record hdict =
  entries :: items
  factory :: "callable option"

definition hdict_val :: "hdict \<Rightarrow> pyval" where
  "hdict_val h = PHDict (entries h) (factory h)"

definition new_hdict :: "callable option \<Rightarrow> hdict" where
  "new_hdict f = \<lparr>entries = [], factory = f\<rparr>"

subsection \<open>\<^verbatim>\<open>__setitem__\<close>\<close>

text \<open>\<^verbatim>\<open>HDict.__setitem__(self, key, value)\<close>, together with the loop
  \<^verbatim>\<open>for key, value in m.items(): self[key] = value\<close> of \<^verbatim>\<open>__init__\<close>, which it reaches
  through \<^verbatim>\<open>self.__class__(values=key)\<close>: with no positional and no keyword argument the
  constructor is that loop over \<^verbatim>\<open>values\<close>, run on an empty instance without a factory
  (lemma \<open>HDict_of_Mapping\<close> below checks this against \<open>HDict_init\<close>). The last step is
  \<^verbatim>\<open>super().__setitem__\<close>.\<close>

function setitem :: "hdict \<Rightarrow> pyval \<Rightarrow> pyval \<Rightarrow> error + hdict"
  and setitems :: "hdict \<Rightarrow> items \<Rightarrow> error + hdict"
where
  "setitem self key value =
     (case (if is_Mapping key \<and> \<not> is_Hashable key
            then (case setitems (new_hdict None) (mapping_items key) of
                    Inl e \<Rightarrow> Inl e | Inr h \<Rightarrow> Inr (hdict_val h))
            else Inr key) of
        Inl e \<Rightarrow> Inl e
      | Inr key1 \<Rightarrow>
         (case (if is_Mapping value \<and> \<not> is_Hashable value
                then (case setitems (new_hdict None) (mapping_items value) of
                        Inl e \<Rightarrow> Inl e | Inr h \<Rightarrow> Inr (hdict_val h))
                else if \<not> is_Hashable value then Inl (ValueError ValueNotHashable)
                else if \<not> is_Hashable key1 then Inl (ValueError KeyNotHashable)
                else Inr value) of
            Inl e \<Rightarrow> Inl e
          | Inr value1 \<Rightarrow>
             (case dict_setitem (entries self) key1 value1 of
                Inl e \<Rightarrow> Inl e
              | Inr es \<Rightarrow> Inr (self\<lparr>entries := es\<rparr>))))"
| "setitems self [] = Inr self"
| "setitems self ((key, value) # kvs) =
     (case setitem self key value of Inl e \<Rightarrow> Inl e | Inr self' \<Rightarrow> setitems self' kvs)"
  by pat_completeness auto

termination
proof (relation "measure (\<lambda>x. case x of
         Inl (self, key, value) \<Rightarrow> size key + size value
       | Inr (self, kvs) \<Rightarrow> size_list (size_prod size size) kvs)")
  have less: "size_list (size_prod size size) (mapping_items v) < size v" if "is_Mapping v" for v
    using that by (cases v) simp_all
  fix self :: hdict and key "value" :: pyval
  show "is_Mapping key \<and> \<not> is_Hashable key \<Longrightarrow>
        (Inr (new_hdict None, mapping_items key), Inl (self, key, value))
        \<in> measure (\<lambda>x. case x of
              Inl (self, key, value) \<Rightarrow> size key + size value
            | Inr (self, kvs) \<Rightarrow> size_list (size_prod size size) kvs)"
    using less [of key] by simp
  show "is_Mapping value \<and> \<not> is_Hashable value \<Longrightarrow>
        (Inr (new_hdict None, mapping_items value), Inl (self, key, value))
        \<in> measure (\<lambda>x. case x of
              Inl (self, key, value) \<Rightarrow> size key + size value
            | Inr (self, kvs) \<Rightarrow> size_list (size_prod size size) kvs)"
    using less [of "value"] by simp
qed auto

declare setitem.simps [simp del]

subsection \<open>\<^verbatim>\<open>__init__\<close>\<close>

text \<open>The loop \<^verbatim>\<open>for key, value in args: kwargs[key] = value\<close>: each argument is
  unpacked into two names and stored in the plain dictionary \<^verbatim>\<open>kwargs\<close>.\<close>

fun store_pairs :: "items \<Rightarrow> pyval list \<Rightarrow> error + items" where
  "store_pairs kwargs [] = Inr kwargs"
| "store_pairs kwargs (arg # rest) =
     (case seq_elems arg of
        [key, value] \<Rightarrow>
          (case dict_setitem kwargs key value of
             Inl e \<Rightarrow> Inl e
           | Inr kwargs' \<Rightarrow> store_pairs kwargs' rest)
      | _ \<Rightarrow> Inl (ValueError CannotUnpack))"

text \<open>Lines 87 to 99: the positional arguments are merged into \<^verbatim>\<open>kwargs\<close>, by the first
  shape that matches, or the constructor raises.\<close>

definition merge_positional :: "pyval list \<Rightarrow> items \<Rightarrow> error + items" where
  "merge_positional args kwargs =
     (if parameters_are_key_value_pairs args then store_pairs kwargs args
      else if parameters_is_key_value_list args then
        dict_setitems kwargs
          [(args ! (value_index - 1), args ! value_index).
             value_index \<leftarrow> filter odd [1..<length args]]
      else if length args = 1 \<and> is_Mapping (args ! 0) then
        dict_setitems kwargs (mapping_items (args ! 0))
      else if args \<noteq> [] then Inl (ValueError EvenNumberOfArguments)
      else Inr kwargs)"

text \<open>\<^verbatim>\<open>HDict(*args, values=values, factory=factory, **kwargs)\<close>. The default of
  \<^verbatim>\<open>values\<close> is \<^verbatim>\<open>None\<close>.\<close>

definition HDict_init :: "pyval list \<Rightarrow> pyval \<Rightarrow> callable option \<Rightarrow> items \<Rightarrow> error + hdict" where
  "HDict_init args values fct kwargs =
     (case merge_positional args kwargs of
        Inl e \<Rightarrow> Inl e
      | Inr kwargs' \<Rightarrow>
         (case setitems (new_hdict fct) kwargs' of
            Inl e \<Rightarrow> Inl e
          | Inr self \<Rightarrow>
             if is_Mapping values then setitems self (mapping_items values) else Inr self))"

subsection \<open>\<^verbatim>\<open>__getitem__\<close>\<close>

text \<open>\<^verbatim>\<open>HDict.__getitem__(self, key)\<close> gives what the call returns or raises, the
  instance afterwards, and the number of times the factory was invoked. Invoking the
  factory yields its value at index 0 and leaves the callable with the rest.\<close>

definition getitem :: "hdict \<Rightarrow> pyval \<Rightarrow> (error + pyval) \<times> hdict \<times> nat" where
  "getitem self key =
     (case dict_contains (entries self) key of
        Inl e \<Rightarrow> (Inl e, self, 0)
      | Inr present \<Rightarrow>
         (case (if \<not> present then factory self else None) of
            Some f \<Rightarrow>
              (let self1 = self\<lparr>factory := Some (\<lambda>n. f (Suc n))\<rparr> in
               case setitem self1 key (f 0) of
                 Inl e \<Rightarrow> (Inl e, self1, 1)
               | Inr self2 \<Rightarrow> (dict_getitem (entries self2) key, self2, 1))
          | None \<Rightarrow> (dict_getitem (entries self) key, self, 0)))"

subsection \<open>\<^verbatim>\<open>__hash__\<close>, \<^verbatim>\<open>empty\<close>\<close>

text \<open>\<^verbatim>\<open>hash(frozenset(self))\<close>: iterating a dictionary gives its keys, and the built-in
  hash of a frozenset is a parameter.\<close>

definition frozenset :: "hdict \<Rightarrow> pyval set" where
  "frozenset self = set (map fst (entries self))"

definition HDict_hash :: "(pyval set \<Rightarrow> int) \<Rightarrow> hdict \<Rightarrow> int" where
  "HDict_hash hash self = hash (frozenset self)"

definition HDict_empty :: "hdict \<Rightarrow> bool" where
  "HDict_empty self = (length (entries self) = 0)"

subsection \<open>\<^verbatim>\<open>to_json\<close>, \<^verbatim>\<open>loads\<close>\<close>

text \<open>The JSON codec is a parameter: \<open>dumps indent v\<close> is \<^verbatim>\<open>json.dumps(v, indent=indent)\<close>
  and \<open>json_loads\<close> is \<^verbatim>\<open>json.loads\<close>. Of the keyword arguments of \<^verbatim>\<open>to_json\<close> only
  \<^verbatim>\<open>indent\<close> is kept.\<close>

definition to_json :: "(nat \<Rightarrow> pyval \<Rightarrow> 't) \<Rightarrow> nat option \<Rightarrow> hdict \<Rightarrow> 't" where
  "to_json dumps indent self =
     dumps (case indent of None \<Rightarrow> 4 | Some i \<Rightarrow> i) (hdict_val self)"

text \<open>\<^verbatim>\<open>cls(**d)\<close>: \<^verbatim>\<open>d\<close> must be a mapping with string keys, and a key \<^verbatim>\<open>self\<close> collides
  with the first parameter of \<^verbatim>\<open>__init__\<close>; the keys \<^verbatim>\<open>values\<close> and \<^verbatim>\<open>factory\<close> bind the
  parameters of these names, every other key goes to \<^verbatim>\<open>kwargs\<close>. No value of the model
  is callable, so a \<^verbatim>\<open>factory\<close> bound this way is not one.\<close>

fun is_str :: "pyval \<Rightarrow> bool" where
  "is_str (PStr s) = True"
| "is_str v = False"

definition HDict_keywords :: "pyval \<Rightarrow> error + hdict" where
  "HDict_keywords d =
     (if \<not> is_Mapping d \<or> \<not> list_all (\<lambda>(k, v). is_str k) (mapping_items d) then Inl TypeError
      else if dict_get (mapping_items d) (PStr ''self'') \<noteq> None then Inl TypeError
      else HDict_init []
             (case dict_get (mapping_items d) (PStr ''values'') of None \<Rightarrow> PNone | Some v \<Rightarrow> v)
             None
             (filter (\<lambda>(k, v). \<not> py_eq k (PStr ''values'') \<and> \<not> py_eq k (PStr ''factory''))
                (mapping_items d)))"

definition loads :: "('t \<Rightarrow> error + pyval) \<Rightarrow> 't \<Rightarrow> error + hdict" where
  "loads json_loads string =
     (case json_loads string of
        Inl e \<Rightarrow> Inl e
      | Inr loaded_dictionary \<Rightarrow> HDict_keywords loaded_dictionary)"

text \<open>\<^verbatim>\<open>self.__class__(values=v)\<close> as a value: the instance that \<^verbatim>\<open>__setitem__\<close> puts in the
  place of a mapping that is not hashable.\<close>

definition HDict_of :: "pyval \<Rightarrow> error + pyval" where
  "HDict_of v = (case HDict_init [] v None [] of Inl e \<Rightarrow> Inl e | Inr h \<Rightarrow> Inr (hdict_val h))"

text \<open>What \<^verbatim>\<open>__setitem__\<close> does with the value (lines 128 to 134), when the key passes:
  the value to store, or the error.\<close>

definition stored_value :: "pyval \<Rightarrow> error + pyval" where
  "stored_value value =
     (if is_Mapping value \<and> \<not> is_Hashable value then HDict_of value
      else if \<not> is_Hashable value then Inl (ValueError ValueNotHashable)
      else Inr value)"

text \<open>A plain dictionary as Python builds it: its keys can be hashed and no two of them are
  equal, and so for the plain dictionaries among its values.\<close>

fun proper_dict :: "pyval \<Rightarrow> bool" where
  "proper_dict (PDict es) =
     (list_all (\<lambda>(k, v). hashable k \<and> proper_dict v) es \<and>
      sorted_wrt (\<lambda>k k'. \<not> py_eq k k') (map fst es))"
| "proper_dict v = True"

text \<open>What \<^verbatim>\<open>__setitem__\<close> does with the key (lines 125 and 126): the key to store under,
  or the error of the conversion.\<close>

definition effective_key :: "pyval \<Rightarrow> error + pyval" where
  "effective_key key = (if is_Mapping key \<and> \<not> is_Hashable key then HDict_of key else Inr key)"

section \<open>Equality is an equivalence\<close>

lemma py_eq_mapping:
  "is_Mapping a \<Longrightarrow> is_Mapping b \<Longrightarrow>
   py_eq a b = same_items py_eq (mapping_items a) (mapping_items b)"
  by (cases a; cases b) simp_all

lemma same_items_refl:
  assumes "\<And>k v. (k, v) \<in> set es \<Longrightarrow> eq k k \<and> eq v v"
  shows "same_items eq es es"
  using assms unfolding list_all_iff list_ex_iff by blast

lemma py_eq_refl: "py_eq v v"
proof (induction v)
  case (PTuple xs)
  then show ?case by (simp add: list_all2_same)
next
  case (PList xs)
  then show ?case by (simp add: list_all2_same)
next
  case (PDict es)
  have "same_items py_eq es es"
  proof (rule same_items_refl)
    fix k v assume "(k, v) \<in> set es"
    then show "py_eq k k \<and> py_eq v v"
      using PDict.IH [of "(k, v)" k] PDict.IH [of "(k, v)" v] by simp
  qed
  then show ?case by simp
next
  case (PHDict es f)
  have "same_items py_eq es es"
  proof (rule same_items_refl)
    fix k v assume "(k, v) \<in> set es"
    then show "py_eq k k \<and> py_eq v v"
      using PHDict.IH(1) [of "(k, v)" k] PHDict.IH(2) [of "(k, v)" v] by simp
  qed
  then show ?case by simp
qed simp_all


lemma same_items_sym:
  assumes "same_items eq es fs"
    and "\<And>k v x. (k, v) \<in> set es \<Longrightarrow> (eq k x \<longrightarrow> eq x k) \<and> (eq v x \<longrightarrow> eq x v)"
  shows "same_items eq fs es"
  using assms unfolding list_all_iff list_ex_iff by fast

lemma py_eq_sym: "py_eq a b \<Longrightarrow> py_eq b a"
proof (induction a arbitrary: b)
  case (PTuple xs)
  then show ?case
    by (cases b) (auto simp: list_all2_conv_all_nth)
next
  case (PList xs)
  then show ?case
    by (cases b) (auto simp: list_all2_conv_all_nth)
next
  case (PDict es)
  show ?case
  proof (cases "is_Mapping b")
    case True
    with PDict.prems have "same_items py_eq es (mapping_items b)"
      by (simp add: py_eq_mapping)
    then have "same_items py_eq (mapping_items b) es"
    proof (rule same_items_sym)
      fix k v x assume "(k, v) \<in> set es"
      then show "(py_eq k x \<longrightarrow> py_eq x k) \<and> (py_eq v x \<longrightarrow> py_eq x v)"
        using PDict.IH(1) [of "(k, v)" k x] PDict.IH(2) [of "(k, v)" v x] by simp
    qed
    with True show ?thesis by (simp add: py_eq_mapping)
  next
    case False
    with PDict.prems show ?thesis by (cases b) simp_all
  qed
next
  case (PHDict es f)
  show ?case
  proof (cases "is_Mapping b")
    case True
    with PHDict.prems have "same_items py_eq es (mapping_items b)"
      by (simp add: py_eq_mapping)
    then have "same_items py_eq (mapping_items b) es"
    proof (rule same_items_sym)
      fix k v x assume "(k, v) \<in> set es"
      then show "(py_eq k x \<longrightarrow> py_eq x k) \<and> (py_eq v x \<longrightarrow> py_eq x v)"
        using PHDict.IH(1) [of "(k, v)" k x] PHDict.IH(2) [of "(k, v)" v x] by simp
    qed
    with True show ?thesis by (simp add: py_eq_mapping)
  next
    case False
    with PHDict.prems show ?thesis by (cases b) simp_all
  qed
next
  case PNone then show ?case by (cases b) simp_all
next
  case (PBool x) then show ?case by (cases b) (auto split: if_splits)
next
  case (PInt x) then show ?case by (cases b) (auto split: if_splits)
next
  case (PStr x) then show ?case by (cases b) simp_all
qed


lemma list_all2_trans_mid:
  assumes "list_all2 P xs ys" and "list_all2 P ys zs"
    and "\<And>x y z. y \<in> set ys \<Longrightarrow> P x y \<Longrightarrow> P y z \<Longrightarrow> P x z"
  shows "list_all2 P xs zs"
proof -
  from assms(1,2) have len: "length xs = length ys" "length ys = length zs"
    by (simp_all add: list_all2_lengthD)
  have "P (xs ! i) (zs ! i)" if "i < length xs" for i
  proof -
    from that len have "ys ! i \<in> set ys" by simp
    moreover from assms(1) that have "P (xs ! i) (ys ! i)" by (simp add: list_all2_nthD)
    moreover from assms(2) that len have "P (ys ! i) (zs ! i)" by (simp add: list_all2_nthD)
    ultimately show ?thesis by (rule assms(3))
  qed
  with len show ?thesis by (simp add: list_all2_conv_all_nth)
qed

lemma same_items_trans:
  assumes "same_items eq es fs" and "same_items eq fs gs"
    and "\<And>k v x z. (k, v) \<in> set fs \<Longrightarrow>
           (eq x k \<longrightarrow> eq k z \<longrightarrow> eq x z) \<and> (eq x v \<longrightarrow> eq v z \<longrightarrow> eq x z)"
  shows "same_items eq es gs"
proof -
  have 1: "\<exists>(k'', v'') \<in> set gs. eq k k'' \<and> eq v v''" if "(k, v) \<in> set es" for k v
  proof -
    from assms(1) that obtain k' v' where m: "(k', v') \<in> set fs" "eq k k'" "eq v v'"
      unfolding list_all_iff list_ex_iff by fast
    from assms(2) m(1) obtain k'' v'' where n: "(k'', v'') \<in> set gs" "eq k' k''" "eq v' v''"
      unfolding list_all_iff list_ex_iff by fast
    from assms(3) [OF m(1)] m n have "eq k k''" "eq v v''" by blast+
    with n(1) show ?thesis by blast
  qed
  have 2: "\<exists>(k, v) \<in> set es. eq k k'' \<and> eq v v''" if "(k'', v'') \<in> set gs" for k'' v''
  proof -
    from assms(2) that obtain k' v' where m: "(k', v') \<in> set fs" "eq k' k''" "eq v' v''"
      unfolding list_all_iff list_ex_iff by fast
    from assms(1) m(1) obtain k v where n: "(k, v) \<in> set es" "eq k k'" "eq v v'"
      unfolding list_all_iff list_ex_iff by fast
    from assms(3) [OF m(1)] m n have "eq k k''" "eq v v''" by blast+
    with n(1) show ?thesis by blast
  qed
  from 1 2 show ?thesis unfolding list_all_iff list_ex_iff by fast
qed

lemma py_eq_is_Mapping: "py_eq a b \<Longrightarrow> is_Mapping a = is_Mapping b"
  by (cases a; cases b) simp_all

lemma py_eq_trans: "py_eq a b \<Longrightarrow> py_eq b c \<Longrightarrow> py_eq a c"
proof (induction b arbitrary: a c)
  case PNone then show ?case by (cases a; cases c) simp_all
next
  case (PBool x) then show ?case by (cases a; cases c) (auto split: if_splits)
next
  case (PInt x) then show ?case by (cases a; cases c) (auto split: if_splits)
next
  case (PStr x) then show ?case by (cases a; cases c) simp_all
next
  case (PTuple ys)
  from PTuple.prems obtain xs zs where [simp]: "a = PTuple xs" "c = PTuple zs"
    by (cases a; cases c) simp_all
  from PTuple.prems have "list_all2 py_eq xs ys" "list_all2 py_eq ys zs" by simp_all
  then have "list_all2 py_eq xs zs"
    by (rule list_all2_trans_mid) (rule PTuple.IH)
  then show ?case by simp
next
  case (PList ys)
  from PList.prems obtain xs zs where [simp]: "a = PList xs" "c = PList zs"
    by (cases a; cases c) simp_all
  from PList.prems have "list_all2 py_eq xs ys" "list_all2 py_eq ys zs" by simp_all
  then have "list_all2 py_eq xs zs"
    by (rule list_all2_trans_mid) (rule PList.IH)
  then show ?case by simp
next
  case (PDict fs)
  from PDict.prems have ma: "is_Mapping a" and mc: "is_Mapping c"
    using py_eq_is_Mapping [of a "PDict fs"] py_eq_is_Mapping [of "PDict fs" c] by simp_all
  with PDict.prems have "same_items py_eq (mapping_items a) fs"
    "same_items py_eq fs (mapping_items c)"
    using py_eq_mapping [of a "PDict fs"] py_eq_mapping [of "PDict fs" c] by simp_all
  then have "same_items py_eq (mapping_items a) (mapping_items c)"
  proof (rule same_items_trans)
    fix k v x z assume "(k, v) \<in> set fs"
    then show "(py_eq x k \<longrightarrow> py_eq k z \<longrightarrow> py_eq x z) \<and> (py_eq x v \<longrightarrow> py_eq v z \<longrightarrow> py_eq x z)"
      using PDict.IH(1) [of "(k, v)" k x z] PDict.IH(2) [of "(k, v)" v x z] by simp
  qed
  with ma mc show ?case by (simp add: py_eq_mapping)
next
  case (PHDict fs f)
  from PHDict.prems have ma: "is_Mapping a" and mc: "is_Mapping c"
    using py_eq_is_Mapping [of a "PHDict fs f"] py_eq_is_Mapping [of "PHDict fs f" c] by simp_all
  with PHDict.prems have "same_items py_eq (mapping_items a) fs"
    "same_items py_eq fs (mapping_items c)"
    using py_eq_mapping [of a "PHDict fs f"] py_eq_mapping [of "PHDict fs f" c] by simp_all
  then have "same_items py_eq (mapping_items a) (mapping_items c)"
  proof (rule same_items_trans)
    fix k v x z assume "(k, v) \<in> set fs"
    then show "(py_eq x k \<longrightarrow> py_eq k z \<longrightarrow> py_eq x z) \<and> (py_eq x v \<longrightarrow> py_eq v z \<longrightarrow> py_eq x z)"
      using PHDict.IH(1) [of "(k, v)" k x z] PHDict.IH(2) [of "(k, v)" v x z] by simp
  qed
  with ma mc show ?case by (simp add: py_eq_mapping)
qed

section \<open>Hashing\<close>

text \<open>
  C1. \<^verbatim>\<open>HDict.__hash__\<close> is the hash of the frozenset of the current keys, so two
  instances whose key sets are equal hash alike, whatever the insertion order, the values
  and the factories are. (Key sets are compared as sets of values of the model.)
\<close>

theorem hash_is_hash_of_key_set:
  "HDict_hash hash m = hash (set (map fst (entries m))) \<and>
   (set (map fst (entries m1)) = set (map fst (entries m2)) \<longrightarrow>
      HDict_hash hash m1 = HDict_hash hash m2)"
  by (simp add: HDict_hash_def frozenset_def)

theorem hash_is_hash_of_key_set_witness:
  "set (map fst (entries \<lparr>entries = [(PStr ''a'', PInt 1), (PStr ''b'', PInt 2)], factory = None\<rparr>))
     = set (map fst (entries \<lparr>entries = [(PStr ''b'', PNone), (PStr ''a'', PStr ''x'')],
                               factory = Some (\<lambda>n. PInt 0)\<rparr>)) \<and>
   HDict_hash (\<lambda>S. int (card S))
       \<lparr>entries = [(PStr ''a'', PInt 1), (PStr ''b'', PInt 2)], factory = None\<rparr>
     = HDict_hash (\<lambda>S. int (card S))
         \<lparr>entries = [(PStr ''b'', PNone), (PStr ''a'', PStr ''x'')], factory = Some (\<lambda>n. PInt 0)\<rparr>"
proof -
  have keys:
    "set (map fst (entries \<lparr>entries = [(PStr ''a'', PInt 1), (PStr ''b'', PInt 2)], factory = None\<rparr>))
       = set (map fst (entries \<lparr>entries = [(PStr ''b'', PNone), (PStr ''a'', PStr ''x'')],
                                 factory = Some (\<lambda>n. PInt 0)\<rparr>))"
    by auto
  from hash_is_hash_of_key_set
         [of "\<lambda>S. int (card S)" _
             "\<lparr>entries = [(PStr ''a'', PInt 1), (PStr ''b'', PInt 2)], factory = None\<rparr>"
             "\<lparr>entries = [(PStr ''b'', PNone), (PStr ''a'', PStr ''x'')],
               factory = Some (\<lambda>n. PInt 0)\<rparr>"]
       keys
  show ?thesis by blast
qed

section \<open>Construction\<close>

text \<open>
  C3, as the claim states it, fails: a single positional argument that is a list of two
  pairs is itself a sequence of length 2 with two hashable elements, so it is taken as
  one pair, the first tuple being the key and the second the value.
\<close>

theorem single_list_of_pairs_counterexample:
  "HDict_init [PList [PTuple [PStr ''a'', PInt 1], PTuple [PStr ''b'', PInt 2]]] PNone None []
     = Inr \<lparr>entries = [(PTuple [PStr ''a'', PInt 1], PTuple [PStr ''b'', PInt 2])], factory = None\<rparr> \<and>
   HDict_init [PList [PTuple [PStr ''a'', PInt 1], PTuple [PStr ''b'', PInt 2]]] PNone None []
     \<noteq> HDict_init [PStr ''a'', PInt 1, PStr ''b'', PInt 2] PNone None []"
  by (simp add: HDict_init_def merge_positional_def parameters_are_key_value_pairs_def
      is_key_value_pair_def parameters_is_key_value_list_def new_hdict_def hdict_val_def
      dict_setitem_def setitem.simps)

text \<open>
  C3, amended. With the pairs passed as separate positional arguments,
  \<^verbatim>\<open>HDict(("a", 1), ("b", 2))\<close>, \<^verbatim>\<open>HDict("a", 1, "b", 2)\<close> and \<^verbatim>\<open>HDict({"a": 1, "b": 2})\<close>
  build the same map: the keys \<^verbatim>\<open>"a"\<close> and \<^verbatim>\<open>"b"\<close> with the values 1 and 2.
\<close>

theorem construction_forms_agree:
  "HDict_init [PTuple [PStr ''a'', PInt 1], PTuple [PStr ''b'', PInt 2]] PNone None []
     = Inr \<lparr>entries = [(PStr ''a'', PInt 1), (PStr ''b'', PInt 2)], factory = None\<rparr> \<and>
   HDict_init [PStr ''a'', PInt 1, PStr ''b'', PInt 2] PNone None []
     = Inr \<lparr>entries = [(PStr ''a'', PInt 1), (PStr ''b'', PInt 2)], factory = None\<rparr> \<and>
   HDict_init [PDict [(PStr ''a'', PInt 1), (PStr ''b'', PInt 2)]] PNone None []
     = Inr \<lparr>entries = [(PStr ''a'', PInt 1), (PStr ''b'', PInt 2)], factory = None\<rparr>"
  by (simp add: HDict_init_def merge_positional_def parameters_are_key_value_pairs_def
      is_key_value_pair_def parameters_is_key_value_list_def new_hdict_def hdict_val_def
      dict_setitem_def setitem.simps)

text \<open>
  C7. When the positional arguments are neither key-value pairs, nor a flat key-value
  list, nor a single mapping, and there is at least one, the constructor raises the
  \<^verbatim>\<open>ValueError\<close> about an even number of arguments and returns no instance, whatever
  \<^verbatim>\<open>values\<close>, \<^verbatim>\<open>factory\<close> and the keyword arguments are.
\<close>

theorem init_rejects_other_shapes:
  assumes "\<not> parameters_are_key_value_pairs args"
    and "\<not> parameters_is_key_value_list args"
    and "\<not> (length args = 1 \<and> is_Mapping (args ! 0))"
    and "args \<noteq> []"
  shows "HDict_init args values fct kwargs = Inl (ValueError EvenNumberOfArguments)"
proof -
  from assms have "merge_positional args kwargs = Inl (ValueError EvenNumberOfArguments)"
    unfolding merge_positional_def by auto
  then show ?thesis by (simp add: HDict_init_def)
qed

theorem init_rejects_other_shapes_witness:
  "\<not> parameters_are_key_value_pairs [PStr ''a'', PInt 1, PStr ''b''] \<and>
   \<not> parameters_is_key_value_list [PStr ''a'', PInt 1, PStr ''b''] \<and>
   \<not> (length [PStr ''a'', PInt 1, PStr ''b''] = 1 \<and> is_Mapping ([PStr ''a'', PInt 1, PStr ''b''] ! 0)) \<and>
   [PStr ''a'', PInt 1, PStr ''b''] \<noteq> [] \<and>
   HDict_init [PStr ''a'', PInt 1, PStr ''b''] PNone None [] = Inl (ValueError EvenNumberOfArguments)"
proof -
  have a: "\<not> parameters_are_key_value_pairs [PStr ''a'', PInt 1, PStr ''b'']"
    by (simp add: parameters_are_key_value_pairs_def is_key_value_pair_def)
  have b: "\<not> parameters_is_key_value_list [PStr ''a'', PInt 1, PStr ''b'']"
    by (simp add: parameters_is_key_value_list_def)
  have c: "\<not> (length [PStr ''a'', PInt 1, PStr ''b''] = 1 \<and> is_Mapping ([PStr ''a'', PInt 1, PStr ''b''] ! 0))"
    by simp
  have d: "[PStr ''a'', PInt 1, PStr ''b''] \<noteq> []" by simp
  from init_rejects_other_shapes [OF a b c d, of PNone None "[]"] a b c d
  show ?thesis by blast
qed



section \<open>The built-in dictionary, \<^verbatim>\<open>__setitem__\<close>\<close>

lemma dict_get_put:
  "dict_get (dict_put es k w) q = (if py_eq k q then Some w else dict_get es q)"
proof (induction es)
  case Nil
  show ?case by simp
next
  case (Cons e es)
  obtain k0 v0 where e: "e = (k0, v0)" by (cases e)
  show ?case
  proof (cases "py_eq k0 k")
    case True
    then have "py_eq k0 q = py_eq k q"
      using py_eq_trans [of k k0 q] py_eq_trans [of k0 k q] py_eq_sym [of k0 k] by blast
    with True e show ?thesis by simp
  next
    case False
    then have "py_eq k q \<Longrightarrow> \<not> py_eq k0 q"
      using py_eq_trans [of k0 q k] py_eq_sym [of k q] by blast
    with False e Cons.IH show ?thesis by auto
  qed
qed

lemma hashable_is_Hashable: "hashable v \<Longrightarrow> is_Hashable v"
  by (cases v) simp_all

lemma HDict_of_Mapping:
  "is_Mapping v \<Longrightarrow>
   HDict_of v = (case setitems (new_hdict None) (mapping_items v) of
                   Inl e \<Rightarrow> Inl e | Inr h \<Rightarrow> Inr (hdict_val h))"
  by (simp add: HDict_of_def HDict_init_def merge_positional_def
      parameters_are_key_value_pairs_def parameters_is_key_value_list_def)

lemma setitem_eq:
  "setitem self key value =
     (case (if is_Mapping key \<and> \<not> is_Hashable key then HDict_of key else Inr key) of
        Inl e \<Rightarrow> Inl e
      | Inr key1 \<Rightarrow>
         (case (if is_Mapping value \<and> \<not> is_Hashable value then HDict_of value
                else if \<not> is_Hashable value then Inl (ValueError ValueNotHashable)
                else if \<not> is_Hashable key1 then Inl (ValueError KeyNotHashable)
                else Inr value) of
            Inl e \<Rightarrow> Inl e
          | Inr value1 \<Rightarrow>
             (case dict_setitem (entries self) key1 value1 of
                Inl e \<Rightarrow> Inl e
              | Inr es \<Rightarrow> Inr (self\<lparr>entries := es\<rparr>))))"
proof -
  have k: "(if is_Mapping key \<and> \<not> is_Hashable key
            then (case setitems (new_hdict None) (mapping_items key) of
                    Inl e \<Rightarrow> Inl e | Inr h \<Rightarrow> Inr (hdict_val h))
            else Inr key)
         = (if is_Mapping key \<and> \<not> is_Hashable key then HDict_of key else Inr key)"
    by (simp add: HDict_of_Mapping)
  have v: "(if is_Mapping value \<and> \<not> is_Hashable value
            then (case setitems (new_hdict None) (mapping_items value) of
                    Inl e \<Rightarrow> Inl e | Inr h \<Rightarrow> Inr (hdict_val h))
            else other)
         = (if is_Mapping value \<and> \<not> is_Hashable value then HDict_of value else other)"
    for other
    by (simp add: HDict_of_Mapping)
  show ?thesis
    by (subst setitem.simps) (simp only: k v)
qed

lemma no_KeyError:
  "setitem self key value \<noteq> Inl KeyError"
  "setitems self kvs \<noteq> Inl KeyError"
proof (induction self key "value" and self kvs rule: setitem_setitems.induct)
  case (1 self key "value")
  let ?key1 = "if is_Mapping key \<and> \<not> is_Hashable key
               then (case setitems (new_hdict None) (mapping_items key) of
                       Inl e \<Rightarrow> Inl e | Inr h \<Rightarrow> Inr (hdict_val h))
               else Inr key"
  show ?case
  proof (cases ?key1)
    case (Inl e)
    with "1.IH"(1) have "e \<noteq> KeyError"
      by (auto split: if_splits sum.splits)
    with Inl show ?thesis
      by (subst setitem.simps) simp
  next
    case (Inr key1)
    from "1.IH"(2) [OF Inr]
    have "is_Mapping value \<and> \<not> is_Hashable value \<Longrightarrow>
          setitems (new_hdict None) (mapping_items value) \<noteq> Inl KeyError" .
    with Inr show ?thesis
      by (subst setitem.simps) (auto simp: dict_setitem_def split: sum.splits if_splits)
  qed
next
  case (2 self)
  show ?case by simp
next
  case (3 self key "value" kvs)
  then show ?case by (auto split: sum.splits)
qed


lemma dict_put_absent: "dict_get es k = None \<Longrightarrow> dict_put es k w = es @ [(k, w)]"
  by (induction es) (auto split: if_splits)

lemma setitem_hashable_key:
  assumes "hashable key"
  shows "setitem self key value =
           (case stored_value value of
              Inl e \<Rightarrow> Inl e
            | Inr v \<Rightarrow> Inr (self\<lparr>entries := dict_put (entries self) key v\<rparr>))"
proof -
  from assms have "is_Hashable key" by (rule hashable_is_Hashable)
  with assms show ?thesis
    by (simp add: setitem_eq stored_value_def dict_setitem_def split: sum.splits)
qed

lemma stored_value_no_KeyError: "stored_value v \<noteq> Inl KeyError"
  using no_KeyError(2) [of "new_hdict None" "mapping_items v"]
  by (auto simp: stored_value_def HDict_of_Mapping split: sum.splits)

section \<open>Lookup\<close>

text \<open>
  C5. \<^verbatim>\<open>__getitem__\<close> raises \<^verbatim>\<open>KeyError\<close> exactly when the key is not in the map
  (\<^verbatim>\<open>key not in self\<close> is true) and there is no factory. Whenever it raises, the entries
  are what they were. When the key is in the map, its value is returned, the instance is
  unchanged and the factory is not invoked.
\<close>

theorem getitem_KeyError_iff:
  "(fst (getitem self key) = Inl KeyError) =
     (dict_contains (entries self) key = Inr False \<and> factory self = None) \<and>
   (\<forall>e. fst (getitem self key) = Inl e \<longrightarrow>
        entries (fst (snd (getitem self key))) = entries self) \<and>
   (dict_contains (entries self) key = Inr True \<longrightarrow>
      (\<exists>v. dict_get (entries self) key = Some v \<and> getitem self key = (Inr v, self, 0)))"
proof (cases "hashable key")
  case False
  then show ?thesis by (simp add: getitem_def dict_contains_def)
next
  case h: True
  show ?thesis
  proof (cases "dict_get (entries self) key")
    case (Some v)
    with h show ?thesis by (simp add: getitem_def dict_contains_def dict_getitem_def)
  next
    case None
    show ?thesis
    proof (cases "factory self")
      case n: None
      with h None show ?thesis by (simp add: getitem_def dict_contains_def dict_getitem_def)
    next
      case (Some f)
      show ?thesis
      proof (cases "stored_value (f 0)")
        case (Inl e)
        moreover from Inl have "e \<noteq> KeyError" using stored_value_no_KeyError [of "f 0"] by auto
        ultimately show ?thesis
          using h None Some
          by (simp add: getitem_def dict_contains_def setitem_hashable_key)
      next
        case (Inr v)
        with h None Some show ?thesis
          by (simp add: getitem_def dict_contains_def setitem_hashable_key dict_getitem_def
              dict_get_put py_eq_refl)
      qed
    qed
  qed
qed

theorem getitem_KeyError_iff_witness:
  "fst (getitem \<lparr>entries = [(PStr ''a'', PInt 1)], factory = None\<rparr> (PStr ''b'')) = Inl KeyError \<and>
   dict_contains [(PStr ''a'', PInt 1)] (PStr ''b'') = Inr False \<and>
   entries (fst (snd (getitem \<lparr>entries = [(PStr ''a'', PInt 1)], factory = None\<rparr> (PStr ''b''))))
     = [(PStr ''a'', PInt 1)] \<and>
   dict_contains [(PStr ''a'', PInt 1)] (PStr ''a'') = Inr True \<and>
   getitem \<lparr>entries = [(PStr ''a'', PInt 1)], factory = None\<rparr> (PStr ''a'')
     = (Inr (PInt 1), \<lparr>entries = [(PStr ''a'', PInt 1)], factory = None\<rparr>, 0)"
proof -
  have absent: "dict_contains [(PStr ''a'', PInt 1)] (PStr ''b'') = Inr False"
    and present: "dict_contains [(PStr ''a'', PInt 1)] (PStr ''a'') = Inr True"
    by (simp_all add: dict_contains_def)
  from getitem_KeyError_iff [of "\<lparr>entries = [(PStr ''a'', PInt 1)], factory = None\<rparr>" "PStr ''b''"]
    absent
  have 1: "fst (getitem \<lparr>entries = [(PStr ''a'', PInt 1)], factory = None\<rparr> (PStr ''b'')) = Inl KeyError"
    and 2: "entries (fst (snd (getitem \<lparr>entries = [(PStr ''a'', PInt 1)], factory = None\<rparr> (PStr ''b''))))
     = [(PStr ''a'', PInt 1)]"
    by simp_all
  from getitem_KeyError_iff [of "\<lparr>entries = [(PStr ''a'', PInt 1)], factory = None\<rparr>" "PStr ''a''"]
    present
  have 3: "getitem \<lparr>entries = [(PStr ''a'', PInt 1)], factory = None\<rparr> (PStr ''a'')
     = (Inr (PInt 1), \<lparr>entries = [(PStr ''a'', PInt 1)], factory = None\<rparr>, 0)"
    by simp
  from 1 2 3 absent present show ?thesis by simp
qed





section \<open>Insertion\<close>

text \<open>
  C6. With a list as the key and a plain dictionary as the value, the key is the only
  failure, yet \<^verbatim>\<open>__setitem__\<close> does not reach its test of the key: the value takes the
  first branch of the \<^verbatim>\<open>if\<close>/\<^verbatim>\<open>elif\<close> chain, and the \<^verbatim>\<open>TypeError\<close> of the built-in
  dictionary is what is raised. With a hashable value the same key raises the
  \<^verbatim>\<open>ValueError\<close> about the key.
\<close>

theorem setitem_list_key_mapping_value:
  "setitem \<lparr>entries = [], factory = None\<rparr> (PList [PInt 1]) (PDict [(PStr ''a'', PInt 1)])
     = Inl TypeError \<and>
   setitem \<lparr>entries = [], factory = None\<rparr> (PList [PInt 1]) (PInt 5)
     = Inl (ValueError KeyNotHashable)"
  by (simp add: setitem.simps new_hdict_def hdict_val_def dict_setitem_def)

section \<open>JSON\<close>

text \<open>
  C9. For the map with the single entry \<^verbatim>\<open>"values": 1\<close>, and any codec that reads the
  rendered text back as the dictionary \<^verbatim>\<open>{"values": 1}\<close>, \<^verbatim>\<open>loads(to_json(m))\<close> is the empty
  map and not equal to \<^verbatim>\<open>m\<close>: \<^verbatim>\<open>cls(**loaded_dictionary)\<close> binds the key to the parameter
  \<^verbatim>\<open>values\<close> of the constructor.
\<close>

theorem loads_to_json_values_key:
  assumes "json_loads (dumps 4 (PHDict [(PStr ''values'', PInt 1)] None))
             = Inr (PDict [(PStr ''values'', PInt 1)])"
  shows "loads json_loads (to_json dumps None \<lparr>entries = [(PStr ''values'', PInt 1)], factory = None\<rparr>)
           = Inr \<lparr>entries = [], factory = None\<rparr> \<and>
         \<not> py_eq (hdict_val \<lparr>entries = [], factory = None\<rparr>)
                 (hdict_val \<lparr>entries = [(PStr ''values'', PInt 1)], factory = None\<rparr>)"
  using assms by (simp add: loads_def to_json_def HDict_keywords_def HDict_init_def merge_positional_def parameters_are_key_value_pairs_def
      is_key_value_pair_def parameters_is_key_value_list_def new_hdict_def hdict_val_def
      dict_setitem_def setitem.simps)

theorem loads_to_json_values_key_witness:
  "loads (\<lambda>t. Inr (PDict (mapping_items t)))
     (to_json (\<lambda>i v. v) None \<lparr>entries = [(PStr ''values'', PInt 1)], factory = None\<rparr>)
     = Inr \<lparr>entries = [], factory = None\<rparr>"
proof -
  have "(\<lambda>t. Inr (PDict (mapping_items t)) :: error + pyval)
          ((\<lambda>i v. v) (4::nat) (PHDict [(PStr ''values'', PInt 1)] None))
        = Inr (PDict [(PStr ''values'', PInt 1)])"
    by simp
  from loads_to_json_values_key [of "\<lambda>t. Inr (PDict (mapping_items t))" "\<lambda>i v. v", OF this]
  show ?thesis by simp
qed

section \<open>Conversion of mappings, order of insertion\<close>

lemma setitems_append:
  assumes "setitems self es = Inr self'"
    and "\<forall>(k, v) \<in> set es. hashable k"
    and "sorted_wrt (\<lambda>k k'. \<not> py_eq k k') (map fst es)"
    and "\<forall>(k, v) \<in> set es. dict_get (entries self) k = None"
  shows "\<exists>es'. self' = self\<lparr>entries := entries self @ es'\<rparr> \<and>
           list_all2 (\<lambda>(k', v') (k, v). k' = k \<and> stored_value v = Inr v') es' es"
  using assms
proof (induction es arbitrary: self)
  case Nil
  then show ?case by simp
next
  case (Cons e es)
  obtain k v where e: "e = (k, v)" by (cases e)
  from Cons.prems(2) e have hk: "hashable k" by simp
  from Cons.prems(4) e have absent: "dict_get (entries self) k = None" by simp
  from Cons.prems(1) e hk absent obtain v' where
    v': "stored_value v = Inr v'" and
    rest: "setitems (self\<lparr>entries := entries self @ [(k, v')]\<rparr>) es = Inr self'"
    by (auto simp: setitem_hashable_key dict_put_absent split: sum.splits)
  have "\<forall>(k', w) \<in> set es. dict_get (entries (self\<lparr>entries := entries self @ [(k, v')]\<rparr>)) k' = None"
  proof (clarify)
    fix k' w assume m: "(k', w) \<in> set es"
    with Cons.prems(3) e have "\<not> py_eq k k'" by force
    moreover from m Cons.prems(4) have "dict_get (entries self) k' = None" by auto
    ultimately show "dict_get (entries (self\<lparr>entries := entries self @ [(k, v')]\<rparr>)) k' = None"
      using dict_get_put [of "entries self" k v' k'] absent by (simp add: dict_put_absent)
  qed
  with Cons.IH [OF rest] Cons.prems(2,3)
  obtain es' where es': "self' = self\<lparr>entries := entries self @ [(k, v')] @ es'\<rparr>"
    "list_all2 (\<lambda>(k', v') (k, v). k' = k \<and> stored_value v = Inr v') es' es"
    by auto
  with v' e show ?case
    by (intro exI [of _ "(k, v') # es'"]) simp
qed

lemma same_items_list_all2:
  assumes "list_all2 (\<lambda>(k', v') (k, v). eq k' k \<and> eq v' v) es' es"
  shows "same_items eq es' es"
proof -
  from assms have len: "length es' = length es" by (rule list_all2_lengthD)
  have nth: "eq (fst (es' ! i)) (fst (es ! i)) \<and> eq (snd (es' ! i)) (snd (es ! i))"
    if "i < length es" for i
    using list_all2_nthD2 [OF assms that] by (auto simp: case_prod_beta)
  have "\<exists>(k, v) \<in> set es. eq k' k \<and> eq v' v" if "(k', v') \<in> set es'" for k' v'
  proof -
    from that obtain i where "i < length es'" "es' ! i = (k', v')" by (auto simp: in_set_conv_nth)
    with len nth [of i] have "es ! i \<in> set es" "eq k' (fst (es ! i)) \<and> eq v' (snd (es ! i))"
      by auto
    then show ?thesis by (intro bexI [of _ "es ! i"]) (simp_all add: case_prod_beta)
  qed
  moreover have "\<exists>(k', v') \<in> set es'. eq k' k \<and> eq v' v" if "(k, v) \<in> set es" for k v
  proof -
    from that obtain i where "i < length es" "es ! i = (k, v)" by (auto simp: in_set_conv_nth)
    with len nth [of i] have "es' ! i \<in> set es'" "eq (fst (es' ! i)) k \<and> eq (snd (es' ! i)) v"
      by auto
    then show ?thesis by (intro bexI [of _ "es' ! i"]) (simp_all add: case_prod_beta)
  qed
  ultimately show ?thesis unfolding list_all_iff list_ex_iff by fast
qed


lemma stored_value_py_eq:
  "proper_dict v \<Longrightarrow> stored_value v = Inr v' \<Longrightarrow>
   py_eq v' v \<and> (is_Hashable v \<longrightarrow> v' = v) \<and>
   (\<not> is_Hashable v \<longrightarrow> (\<exists>es'. v' = PHDict es' None))"
proof (induction v arbitrary: v')
  case (PDict es)
  from PDict.prems(2) obtain h where h: "setitems (new_hdict None) es = Inr h" "v' = hdict_val h"
    by (auto simp: stored_value_def HDict_of_Mapping split: sum.splits)
  from PDict.prems(1) have keys: "\<forall>(k, v) \<in> set es. hashable k"
    and vals: "\<forall>(k, v) \<in> set es. proper_dict v"
    and dist: "sorted_wrt (\<lambda>k k'. \<not> py_eq k k') (map fst es)"
    by (auto simp: list_all_iff)
  have "\<forall>(k, v) \<in> set es. dict_get (entries (new_hdict None)) k = None"
    by (simp add: new_hdict_def)
  from setitems_append [OF h(1) keys dist this]
  obtain es' where es': "h = (new_hdict None)\<lparr>entries := es'\<rparr>"
    "list_all2 (\<lambda>(k', v') (k, v). k' = k \<and> stored_value v = Inr v') es' es"
    by (auto simp: new_hdict_def)
  from es'(2) have "list_all2 (\<lambda>(k', v') (k, v). py_eq k' k \<and> py_eq v' v) es' es"
  proof (rule list.rel_mono_strong)
    fix a b assume "a \<in> set es'" "b \<in> set es"
      and r: "(case a of (k', v') \<Rightarrow> \<lambda>(k, v). k' = k \<and> stored_value v = Inr v') b"
    obtain k' w' where a: "a = (k', w')" by (cases a)
    obtain k w where b: "b = (k, w)" by (cases b)
    from r a b have "k' = k" "stored_value w = Inr w'" by simp_all
    moreover from \<open>b \<in> set es\<close> b vals have "proper_dict w" by auto
    ultimately have "py_eq w' w"
      using PDict.IH(2) [of b w w'] \<open>b \<in> set es\<close> b by simp
    with \<open>k' = k\<close> a b show "(case a of (k', v') \<Rightarrow> \<lambda>(k, v). py_eq k' k \<and> py_eq v' v) b"
      by (simp add: py_eq_refl)
  qed
  then have "same_items py_eq es' es" by (rule same_items_list_all2)
  with h(2) es'(1) show ?case by (simp add: hdict_val_def new_hdict_def)
qed (auto simp: stored_value_def py_eq_refl)


lemma dict_key_py_eq: "dict_key es k = Some k0 \<Longrightarrow> py_eq k0 k"
  by (induction es) (auto split: if_splits)

lemma dict_key_None: "(dict_key es k = None) = (dict_get es k = None)"
  by (induction es) (auto split: if_splits)

lemma dict_key_put_same:
  "dict_key (dict_put es k w) k = (case dict_key es k of None \<Rightarrow> Some k | Some k0 \<Rightarrow> Some k0)"
  by (induction es) (auto simp: py_eq_refl)

lemma setitem_Inr:
  assumes "setitem self key value = Inr self'"
  shows "\<exists>k v. effective_key key = Inr k \<and> stored_value value = Inr v \<and> hashable k \<and>
           self' = self\<lparr>entries := dict_put (entries self) k v\<rparr>"
  using assms
  by (auto simp: setitem_eq effective_key_def stored_value_def dict_setitem_def
      split: sum.splits if_splits)

text \<open>
  C2. When \<^verbatim>\<open>self[key] = value\<close> succeeds (the supplied dictionaries being proper ones):
  a value that is a mapping and not hashable is stored as the \<^verbatim>\<open>HDict\<close> newly built by
  \<^verbatim>\<open>HDict(values=value)\<close>, which has no factory and is equal to the mapping, that is, has
  the same entries; a value that is a hashable mapping is stored as it is. The same holds
  for the key under which the value is stored; as in every dictionary, when an equal key
  is already in the map that key stays, and otherwise the stored key is this very key.
\<close>

theorem setitem_converts_mappings:
  assumes "setitem self key value = Inr self'"
    and "proper_dict key" and "proper_dict value"
  shows "\<exists>k v. effective_key key = Inr k \<and> stored_value value = Inr v \<and>
           entries self' = dict_put (entries self) k v \<and>
           dict_get (entries self') k = Some v \<and>
           (\<exists>k0. dict_key (entries self') k = Some k0 \<and> py_eq k0 k \<and>
                 (dict_get (entries self) k = None \<longrightarrow> k0 = k)) \<and>
           (is_Mapping value \<and> \<not> is_Hashable value \<longrightarrow>
              HDict_of value = Inr v \<and> (\<exists>es. v = PHDict es None) \<and> py_eq v value) \<and>
           (is_Mapping value \<and> is_Hashable value \<longrightarrow> v = value) \<and>
           (is_Mapping key \<and> \<not> is_Hashable key \<longrightarrow>
              HDict_of key = Inr k \<and> (\<exists>es. k = PHDict es None) \<and> py_eq k key) \<and>
           (is_Mapping key \<and> is_Hashable key \<longrightarrow> k = key)"
proof -
  from setitem_Inr [OF assms(1)] obtain k v where
    k: "effective_key key = Inr k" and v: "stored_value value = Inr v" and
    self': "self' = self\<lparr>entries := dict_put (entries self) k v\<rparr>"
    by blast
  have got: "dict_get (entries self') k = Some v"
    using self' by (simp add: dict_get_put py_eq_refl)
  have stored: "\<exists>k0. dict_key (entries self') k = Some k0 \<and> py_eq k0 k \<and>
                 (dict_get (entries self) k = None \<longrightarrow> k0 = k)"
  proof (cases "dict_key (entries self) k")
    case None
    with self' show ?thesis by (simp add: dict_key_put_same py_eq_refl)
  next
    case (Some k0)
    then have "py_eq k0 k" by (rule dict_key_py_eq)
    moreover from Some obtain y where "dict_get (entries self) k = Some y"
      using dict_key_None [of "entries self" k] by auto
    ultimately show ?thesis using Some self' by (simp add: dict_key_put_same)
  qed
  have val1: "HDict_of value = Inr v \<and> (\<exists>es. v = PHDict es None) \<and> py_eq v value"
    if "is_Mapping value \<and> \<not> is_Hashable value"
    using stored_value_py_eq [OF assms(3) v] v that by (simp add: stored_value_def)
  have val2: "v = value" if "is_Mapping value \<and> is_Hashable value"
    using stored_value_py_eq [OF assms(3) v] that by simp
  have key1: "HDict_of key = Inr k \<and> (\<exists>es. k = PHDict es None) \<and> py_eq k key"
    if m: "is_Mapping key \<and> \<not> is_Hashable key"
  proof -
    from k m have sk: "stored_value key = Inr k" by (simp add: effective_key_def stored_value_def)
    from stored_value_py_eq [OF assms(2) sk] k m show ?thesis by (simp add: effective_key_def)
  qed
  have key2: "k = key" if "is_Mapping key \<and> is_Hashable key"
    using k that by (simp add: effective_key_def)
  from k v self' got stored val1 val2 key1 key2 show ?thesis
    by (intro exI [of _ k] exI [of _ v]) simp
qed

theorem setitem_converts_mappings_witness:
  "setitem \<lparr>entries = [], factory = None\<rparr>
       (PDict [(PStr ''x'', PInt 1)])
       (PDict [(PStr ''a'', PDict [(PStr ''b'', PInt 2)])])
     = Inr \<lparr>entries = [(PHDict [(PStr ''x'', PInt 1)] None,
                          PHDict [(PStr ''a'', PHDict [(PStr ''b'', PInt 2)] None)] None)],
            factory = None\<rparr> \<and>
   proper_dict (PDict [(PStr ''x'', PInt 1)]) \<and>
   proper_dict (PDict [(PStr ''a'', PDict [(PStr ''b'', PInt 2)])]) \<and>
   HDict_of (PDict [(PStr ''x'', PInt 1)]) = Inr (PHDict [(PStr ''x'', PInt 1)] None) \<and>
   py_eq (PHDict [(PStr ''a'', PHDict [(PStr ''b'', PInt 2)] None)] None)
         (PDict [(PStr ''a'', PDict [(PStr ''b'', PInt 2)])])"
proof -
  have a: "setitem \<lparr>entries = [], factory = None\<rparr>
       (PDict [(PStr ''x'', PInt 1)])
       (PDict [(PStr ''a'', PDict [(PStr ''b'', PInt 2)])])
     = Inr \<lparr>entries = [(PHDict [(PStr ''x'', PInt 1)] None,
                          PHDict [(PStr ''a'', PHDict [(PStr ''b'', PInt 2)] None)] None)],
            factory = None\<rparr>"
    by (simp add: setitem.simps new_hdict_def hdict_val_def dict_setitem_def)
  have b: "proper_dict (PDict [(PStr ''x'', PInt 1)])" by simp
  have c: "proper_dict (PDict [(PStr ''a'', PDict [(PStr ''b'', PInt 2)])])" by simp
  have d: "stored_value (PDict [(PStr ''a'', PDict [(PStr ''b'', PInt 2)])])
             = Inr (PHDict [(PStr ''a'', PHDict [(PStr ''b'', PInt 2)] None)] None)"
    by (simp add: stored_value_def HDict_of_def HDict_init_def merge_positional_def parameters_are_key_value_pairs_def
      is_key_value_pair_def parameters_is_key_value_list_def new_hdict_def hdict_val_def
      dict_setitem_def setitem.simps)
  from setitem_converts_mappings [OF a b c] d
  have "HDict_of (PDict [(PStr ''x'', PInt 1)]) = Inr (PHDict [(PStr ''x'', PInt 1)] None)"
    and "py_eq (PHDict [(PStr ''a'', PHDict [(PStr ''b'', PInt 2)] None)] None)
         (PDict [(PStr ''a'', PDict [(PStr ''b'', PInt 2)])])"
    by (auto simp: effective_key_def)
  with a b c show ?thesis by blast
qed






end
